theory Spec2Isabelle
  imports Main "HOL-Library.AList" "HOL-Library.Sublist"
begin

section \<open>Python values used by the finance service\<close>

text \<open>
  The three handlers of \<^verbatim>\<open>quant_finance_service.py\<close> are embedded as HOL functions.
  Everything outside the file (the price-history library, the HTTP client, the rendering
  of a data frame) is a parameter of the handler that calls it, and the outcome of a call
  that can raise is a value of \<open>py_exception + 'a\<close>, with \<open>Inl\<close> for the raised object.

  A raised object is kept with the text \<^verbatim>\<open>str(e)\<close> and with the one fact the handlers
  depend on: whether its class derives from \<^verbatim>\<open>Exception\<close> (every retrieval, decoding or
  attribute error does) or only from \<^verbatim>\<open>BaseException\<close> (\<^verbatim>\<open>KeyboardInterrupt\<close>,
  \<^verbatim>\<open>SystemExit\<close>, \<^verbatim>\<open>GeneratorExit\<close>). \<^verbatim>\<open>except Exception\<close> catches
  the first kind only, a bare \<^verbatim>\<open>except:\<close> catches both.
\<close>

datatype py_exception = PyException string | PyBaseException string

definition except_Exception :: "py_exception + 'a \<Rightarrow> (string \<Rightarrow> 'a) \<Rightarrow> py_exception + 'a" where
  "except_Exception body handler =
     (case body of
        Inr v \<Rightarrow> Inr v
      | Inl (PyException msg) \<Rightarrow> Inr (handler msg)
      | Inl (PyBaseException msg) \<Rightarrow> Inl (PyBaseException msg))"

definition except_all :: "py_exception + 'a \<Rightarrow> 'a \<Rightarrow> py_exception + 'a" where
  "except_all body fallback = (case body of Inr v \<Rightarrow> Inr v | Inl _ \<Rightarrow> Inr fallback)"

subsection \<open>Strings\<close>

text \<open>
  A \<open>char\<close> stands for a code point below 256. \<^verbatim>\<open>str.strip()\<close> removes the
  characters for which \<^verbatim>\<open>str.isspace\<close> holds; below 256 these are the twelve listed.
  \<^verbatim>\<open>str.split(',')\<close> cuts at every comma and always returns at least one field.
\<close>

definition whitespace :: "char list" where
  "whitespace = [CHR 0x09, CHR 0x0A, CHR 0x0B, CHR 0x0C, CHR 0x0D, CHR 0x1C, CHR 0x1D,
                 CHR 0x1E, CHR 0x1F, CHR 0x20, CHR 0x85, CHR 0xA0]"

definition is_space :: "char \<Rightarrow> bool" where
  "is_space c = (c \<in> set whitespace)"

definition strip :: "string \<Rightarrow> string" where
  "strip s = rev (dropWhile is_space (rev (dropWhile is_space s)))"

fun split_fields :: "char \<Rightarrow> string \<Rightarrow> string \<Rightarrow> string list" where
  "split_fields sep field [] = [rev field]"
| "split_fields sep field (c # cs) =
     (if c = sep then rev field # split_fields sep [] cs
      else split_fields sep (c # field) cs)"

definition split :: "string \<Rightarrow> char \<Rightarrow> string list" where
  "split s sep = split_fields sep [] s"

definition digit_char :: "nat \<Rightarrow> char" where
  "digit_char d = ''0123456789'' ! d"

fun decimal :: "nat \<Rightarrow> string" where
  "decimal n = (if n < 10 then [digit_char n] else decimal (n div 10) @ [digit_char (n mod 10)])"

declare decimal.simps [simp del]

subsection \<open>Binary floating point\<close>

text \<open>
  The closing prices are \<^verbatim>\<open>numpy.float64\<close> values. \<open>Finite s m e\<close> is the number
  \<open>(-1)\<^sup>s \<cdot> m \<cdot> 2\<^sup>e\<close>, zero with its sign included. Every operation computes the exact
  result and rounds it to the nearest value with a 53-bit significand, ties to even, with
  gradual underflow below \<open>2\<^sup>-\<^sup>1\<^sup>0\<^sup>2\<^sup>2\<close> and overflow to infinity from \<open>2\<^sup>1\<^sup>0\<^sup>2\<^sup>4\<close>.
  Division by zero raises nothing on these values: it gives an infinity, or NaN for
  \<open>0 / 0\<close>.
\<close>

datatype float64 = Finite bool nat int | Infinity bool | NaN

fun bit_length :: "nat \<Rightarrow> nat" where
  "bit_length n = (if n = 0 then 0 else Suc (bit_length (n div 2)))"

declare bit_length.simps [simp del]

definition round_half_even :: "nat \<Rightarrow> nat \<Rightarrow> nat" where
  "round_half_even n d =
     (let q = n div d; r = n mod d
      in if d < 2 * r \<or> (2 * r = d \<and> odd q) then q + 1 else q)"

definition scaled :: "nat \<Rightarrow> int \<Rightarrow> nat \<times> nat" where
  "scaled m e = (if 0 \<le> e then (m * 2 ^ nat e, 1) else (m, 2 ^ nat (- e)))"

fun reduce :: "nat \<Rightarrow> int \<Rightarrow> nat \<times> int" where
  "reduce m e =
     (if m = 0 then (0, 0) else if even m then reduce (m div 2) (e + 1) else (m, e))"

declare reduce.simps [simp del]

definition round_float64 :: "bool \<Rightarrow> nat \<Rightarrow> nat \<Rightarrow> float64" where
  "round_float64 s n d =
     (if n = 0 then Finite s 0 0
      else
        let k = int (bit_length n) - int (bit_length d);
            lg = (if (if 0 \<le> k then d * 2 ^ nat k \<le> n else d \<le> n * 2 ^ nat (- k))
                  then k else k - 1);
            e = max (lg - 52) (- 1074);
            m = (if 0 \<le> e then round_half_even n (d * 2 ^ nat e)
                 else round_half_even (n * 2 ^ nat (- e)) d)
        in if 971 < e \<or> (e = 971 \<and> 2 ^ 53 \<le> m) then Infinity s
           else (case reduce m e of (m', e') \<Rightarrow> Finite s m' e'))"

definition signed :: "bool \<Rightarrow> nat \<Rightarrow> int" where
  "signed s m = (if s then - int m else int m)"

fun fsub :: "float64 \<Rightarrow> float64 \<Rightarrow> float64" where
  "fsub NaN _ = NaN"
| "fsub _ NaN = NaN"
| "fsub (Infinity s) (Infinity t) = (if s = t then NaN else Infinity s)"
| "fsub (Infinity s) (Finite _ _ _) = Infinity s"
| "fsub (Finite _ _ _) (Infinity t) = Infinity (\<not> t)"
| "fsub (Finite s m e) (Finite t n f) =
     (let g = min e f;
          d = signed s m * 2 ^ nat (e - g) - signed t n * 2 ^ nat (f - g)
      in if d = 0 then Finite (s \<and> \<not> t) 0 0
         else (case scaled (nat \<bar>d\<bar>) g of (a, b) \<Rightarrow> round_float64 (d < 0) a b))"

fun fmul :: "float64 \<Rightarrow> float64 \<Rightarrow> float64" where
  "fmul NaN _ = NaN"
| "fmul _ NaN = NaN"
| "fmul (Infinity s) (Infinity t) = Infinity (s \<noteq> t)"
| "fmul (Infinity s) (Finite t n _) = (if n = 0 then NaN else Infinity (s \<noteq> t))"
| "fmul (Finite s m _) (Infinity t) = (if m = 0 then NaN else Infinity (s \<noteq> t))"
| "fmul (Finite s m e) (Finite t n f) =
     (case scaled (m * n) (e + f) of (a, b) \<Rightarrow> round_float64 (s \<noteq> t) a b)"

fun fdiv :: "float64 \<Rightarrow> float64 \<Rightarrow> float64" where
  "fdiv NaN _ = NaN"
| "fdiv _ NaN = NaN"
| "fdiv (Infinity s) (Infinity t) = NaN"
| "fdiv (Infinity s) (Finite t _ _) = Infinity (s \<noteq> t)"
| "fdiv (Finite s _ _) (Infinity t) = Finite (s \<noteq> t) 0 0"
| "fdiv (Finite s m e) (Finite t n f) =
     (if n = 0 then (if m = 0 then NaN else Infinity (s \<noteq> t))
      else (case scaled m (e - f) of (a, b) \<Rightarrow> round_float64 (s \<noteq> t) a (b * n)))"

definition float_of_nat :: "nat \<Rightarrow> float64" where
  "float_of_nat n = round_float64 False n 1"

text \<open>
  The format specifications \<^verbatim>\<open>.2f\<close> and \<^verbatim>\<open>+.2f\<close>: the exact value rounded to two
  decimals, ties to even; the sign of a negative value is kept when it rounds to zero, and
  the sign of a NaN is never printed.
\<close>

definition sign_text :: "bool \<Rightarrow> bool \<Rightarrow> string" where
  "sign_text always_sign s = (if s then ''-'' else if always_sign then ''+'' else '''')"

fun format_2f :: "bool \<Rightarrow> float64 \<Rightarrow> string" where
  "format_2f always_sign NaN = sign_text always_sign False @ ''nan''"
| "format_2f always_sign (Infinity s) = sign_text always_sign s @ ''inf''"
| "format_2f always_sign (Finite s m e) =
     (case scaled (100 * m) e of (a, b) \<Rightarrow>
        let cents = round_half_even a b
        in sign_text always_sign s @ decimal (cents div 100) @ ''.'' @
           [digit_char (cents mod 100 div 10), digit_char (cents mod 10)])"

subsection \<open>Decoded JSON\<close>

text \<open>
  What \<^verbatim>\<open>response.json()\<close> returns. A dict is the list of its items, in order, each
  key once. \<^verbatim>\<open>.get\<close> exists on a dict only; on every other value the attribute lookup
  raises \<^verbatim>\<open>AttributeError\<close>.
\<close>

datatype pyval =
    PNone
  | PBool bool
  | PInt int
  | PFloat float64
  | PStr string
  | PList "pyval list"
  | PDict "(string \<times> pyval) list"

fun type_name :: "pyval \<Rightarrow> string" where
  "type_name PNone = ''NoneType''"
| "type_name (PBool _) = ''bool''"
| "type_name (PInt _) = ''int''"
| "type_name (PFloat _) = ''float''"
| "type_name (PStr _) = ''str''"
| "type_name (PList _) = ''list''"
| "type_name (PDict _) = ''dict''"

fun py_get :: "pyval \<Rightarrow> string \<Rightarrow> pyval \<Rightarrow> py_exception + pyval" where
  "py_get (PDict d) key fallback =
     Inr (case map_of d key of Some v \<Rightarrow> v | None \<Rightarrow> fallback)"
| "py_get v key fallback =
     Inl (PyException ([CHR 0x27] @ type_name v @ [CHR 0x27] @ '' object has no attribute ''
          @ [CHR 0x27] @ ''get'' @ [CHR 0x27]))"

subsection \<open>Price history\<close>

text \<open>
  A data frame of price bars is the list of its rows, oldest first. \<^verbatim>\<open>data.empty\<close> is
  \<open>data = []\<close>, \<^verbatim>\<open>data['Close']\<close> is \<open>map Close data\<close>, \<^verbatim>\<open>.iloc[i]\<close> reads row
  \<open>i\<close>, or row \<open>length + i\<close> for a negative \<open>i\<close>, and raises \<^verbatim>\<open>IndexError\<close> when
  there is no such row, and \<^verbatim>\<open>data.tail()\<close> keeps the last five rows.
\<close>

record bar =
  Open :: float64
  High :: float64
  Low :: float64
  Close :: float64
  Volume :: int

definition iloc :: "'a list \<Rightarrow> int \<Rightarrow> py_exception + 'a" where
  "iloc xs i =
     (if 0 \<le> i \<and> i < int (length xs) then Inr (xs ! nat i)
      else if i < 0 \<and> - i \<le> int (length xs) then Inr (xs ! nat (int (length xs) + i))
      else Inl (PyException ''single positional indexer is out-of-bounds''))"

definition tail :: "'a list \<Rightarrow> 'a list" where
  "tail xs = drop (length xs - 5) xs"

text \<open>
  \<^verbatim>\<open>yf.Ticker(symbol).history(period=period)\<close> is the parameter \<open>history\<close>. Its first
  argument is the number of calls the handler has made before this one: the market data
  service is not a function of the symbol, and two requests for one symbol may differ.
\<close>

type_synonym history = "nat \<Rightarrow> string \<Rightarrow> string \<Rightarrow> py_exception + bar list"

section \<open>The quote fetcher\<close>

text \<open>
  \<^verbatim>\<open>
  def get_stock_data(symbol, period="1mo"):
      try:
          ticker = yf.Ticker(symbol)
          data = ticker.history(period=period)
          return f"Stock data for {symbol}:\n{data.tail().to_string()}"
      except Exception as e:
          return f"Error fetching data for {symbol}: {str(e)}"
  \<close>
  \<open>to_string\<close> is the table rendering of the data frame library.
\<close>

definition get_stock_data ::
  "history \<Rightarrow> (bar list \<Rightarrow> string) \<Rightarrow> string \<Rightarrow> string \<Rightarrow> py_exception + string" where
  "get_stock_data history to_string symbol period =
     except_Exception
       (case history 0 symbol period of
          Inl e \<Rightarrow> Inl e
        | Inr data \<Rightarrow>
            Inr (''Stock data for '' @ symbol @ '':\<newline>'' @ to_string (tail data)))
       (\<lambda>msg. ''Error fetching data for '' @ symbol @ '': '' @ msg)"

section \<open>The portfolio summarizer\<close>

text \<open>
  \<^verbatim>\<open>
  def analyze_portfolio(symbols, period="1mo"):
      try:
          portfolio_data = {}
          for symbol in symbols.split(','):
              symbol = symbol.strip()
              ticker = yf.Ticker(symbol)
              data = ticker.history(period=period)
              if not data.empty:
                  portfolio_data[symbol] = {
                      'current_price': data['Close'].iloc[-1],
                      'change': data['Close'].iloc[-1] - data['Close'].iloc[0],
                      'change_pct': ((data['Close'].iloc[-1] - data['Close'].iloc[0])
                                     / data['Close'].iloc[0]) * 100
                  }
          result = "Portfolio Analysis:\n"
          result += "=" * 50 + "\n"
          for symbol, data in portfolio_data.items():
              result += f"{symbol}: ${data['current_price']:.2f} "
              result += f"({data['change']:+.2f}, {data['change_pct']:+.2f}%)\n"
          return result
      except Exception as e:
          return f"Error analyzing portfolio: {str(e)}"
  \<close>
  The dict \<^verbatim>\<open>portfolio_data\<close> keeps its keys in the order of their first insertion, and
  an assignment to a key it holds replaces the value in place: an association list under
  \<open>AList.update\<close>.
\<close>

record portfolio_entry =
  current_price :: float64
  change :: float64
  change_pct :: float64

definition make_entry :: "bar list \<Rightarrow> py_exception + portfolio_entry" where
  "make_entry data =
     (case iloc (map Close data) (- 1) of
        Inl e \<Rightarrow> Inl e
      | Inr last_close \<Rightarrow>
          (case iloc (map Close data) 0 of
             Inl e \<Rightarrow> Inl e
           | Inr first_close \<Rightarrow>
               Inr \<lparr>current_price = last_close,
                    change = fsub last_close first_close,
                    change_pct =
                      fmul (fdiv (fsub last_close first_close) first_close)
                        (float_of_nat 100)\<rparr>))"

fun portfolio_loop ::
  "history \<Rightarrow> string \<Rightarrow> nat \<Rightarrow> string list \<Rightarrow> (string \<times> portfolio_entry) list
     \<Rightarrow> py_exception + (string \<times> portfolio_entry) list" where
  "portfolio_loop history period i [] portfolio_data = Inr portfolio_data"
| "portfolio_loop history period i (s # rest) portfolio_data =
     (let symbol = strip s in
      case history i symbol period of
        Inl e \<Rightarrow> Inl e
      | Inr data \<Rightarrow>
          if data \<noteq> [] then
            (case make_entry data of
               Inl e \<Rightarrow> Inl e
             | Inr entry \<Rightarrow>
                 portfolio_loop history period (Suc i) rest
                   (AList.update symbol entry portfolio_data))
          else portfolio_loop history period (Suc i) rest portfolio_data)"

definition portfolio_line :: "string \<Rightarrow> portfolio_entry \<Rightarrow> string" where
  "portfolio_line symbol data =
     (symbol @ '': $'' @ format_2f False (current_price data) @ '' '')
     @ (''('' @ format_2f True (change data) @ '', '' @ format_2f True (change_pct data)
        @ ''%)\<newline>'')"

definition report_header :: string where
  "report_header = ''Portfolio Analysis:\<newline>'' @ (replicate 50 CHR ''='' @ ''\<newline>'')"

definition format_report :: "(string \<times> portfolio_entry) list \<Rightarrow> string" where
  "format_report portfolio_data =
     foldl (\<lambda>result (symbol, data). result @ portfolio_line symbol data)
       report_header portfolio_data"

definition analyze_portfolio :: "history \<Rightarrow> string \<Rightarrow> string \<Rightarrow> py_exception + string" where
  "analyze_portfolio history symbols period =
     except_Exception
       (case portfolio_loop history period 0 (split symbols CHR '','') [] of
          Inl e \<Rightarrow> Inl e
        | Inr portfolio_data \<Rightarrow> Inr (format_report portfolio_data))
       (\<lambda>msg. ''Error analyzing portfolio: '' @ msg)"

section \<open>The advice relay\<close>

text \<open>
  \<^verbatim>\<open>
  def ai_financial_advice(query):
      try:
          response = requests.post('http://localhost:11434/api/generate',
                                   json={'model': 'llama3.1:8b',
                                         'prompt': f"Provide financial advice for: {query}. Be concise and practical.",
                                         'stream': False})
          if response.status_code == 200:
              return response.json().get('response', 'AI Response: ' + query)
          else:
              return f'AI Response: {query}'
      except:
          return f'AI Response: {query}'
  \<close>
  \<open>post\<close> is \<^verbatim>\<open>requests.post\<close>: it raises, or returns a response with its status
  code and with what a call of \<^verbatim>\<open>response.json()\<close> would do. The handler returns
  whatever value the dict holds under \<^verbatim>\<open>'response'\<close>, so its result is a \<open>pyval\<close>.
\<close>

record generate_request =
  url :: string
  model :: string
  prompt :: string
  stream :: bool

record http_response =
  status_code :: int
  json :: "py_exception + pyval"

definition advice_request :: "string \<Rightarrow> generate_request" where
  "advice_request query =
     \<lparr>url = ''http://localhost:11434/api/generate'',
      model = ''llama3.1:8b'',
      prompt = ''Provide financial advice for: '' @ query @ ''. Be concise and practical.'',
      stream = False\<rparr>"

definition ai_financial_advice ::
  "(generate_request \<Rightarrow> py_exception + http_response) \<Rightarrow> string \<Rightarrow> py_exception + pyval" where
  "ai_financial_advice post query =
     except_all
       (case post (advice_request query) of
          Inl e \<Rightarrow> Inl e
        | Inr response \<Rightarrow>
            if status_code response = 200 then
              (case json response of
                 Inl e \<Rightarrow> Inl e
               | Inr body \<Rightarrow> py_get body ''response'' (PStr (''AI Response: '' @ query)))
            else Inr (PStr (''AI Response: '' @ query)))
       (PStr (''AI Response: '' @ query))"

section \<open>Notions used in the statements\<close>

text \<open>
  \<open>retrievals\<close> lists the outcomes of the history calls the summarizer's loop makes when
  it runs over all the fields of the input: call \<open>i\<close> asks for the trimmed field \<open>i\<close>.
  \<open>entry_of\<close> is the entry the loop stores for a non-empty frame (lemma
  \<open>make_entry_nonempty\<close>), and \<open>stored\<close> pairs every trimmed field whose frame is
  non-empty with that entry, in the order of the input.
\<close>

definition retrievals :: "history \<Rightarrow> string \<Rightarrow> string list \<Rightarrow> (py_exception + bar list) list" where
  "retrievals history period pieces =
     map (\<lambda>(i, s). history i (strip s) period) (enumerate 0 pieces)"

definition entry_of :: "bar list \<Rightarrow> portfolio_entry" where
  "entry_of data =
     \<lparr>current_price = Close (last data),
      change = fsub (Close (last data)) (Close (hd data)),
      change_pct =
        fmul (fdiv (fsub (Close (last data)) (Close (hd data))) (Close (hd data)))
          (float_of_nat 100)\<rparr>"

definition stored :: "string list \<Rightarrow> bar list list \<Rightarrow> (string \<times> portfolio_entry) list" where
  "stored pieces frames =
     map (\<lambda>(s, data). (strip s, entry_of data))
       (filter (\<lambda>(s, data). data \<noteq> []) (zip pieces frames))"

text \<open>
  The lines of a text, as \<^verbatim>\<open>str.splitlines\<close> cuts it at line feeds: a final line feed
  ends the last line and starts no new one. The per-symbol lines of a summary are the lines
  after the header and the separator.
\<close>

definition lines_of :: "string \<Rightarrow> string list" where
  "lines_of text =
     (let pieces = split text CHR ''\<newline>''
      in if last pieces = [] then butlast pieces else pieces)"

definition symbol_lines :: "string \<Rightarrow> string list" where
  "symbol_lines report = drop 2 (lines_of report)"

definition is_str :: "pyval \<Rightarrow> bool" where
  "is_str v = (case v of PStr _ \<Rightarrow> True | _ \<Rightarrow> False)"

section \<open>Sample endpoints and price histories\<close>

text \<open>
  Concrete collaborators at which the theorems below are instantiated: an endpoint that
  refuses the connection, one that answers 500, one that answers 200 with
  \<^verbatim>\<open>{"response": "Diversify your holdings."}\<close>, one that answers 200 with
  \<^verbatim>\<open>{"response": 42}\<close>, and one that answers 200 with \<^verbatim>\<open>{"done": true}\<close>.
\<close>

definition unreachable_endpoint :: "generate_request \<Rightarrow> py_exception + http_response" where
  "unreachable_endpoint rq = Inl (PyException ''Connection refused'')"

definition status_500_endpoint :: "generate_request \<Rightarrow> py_exception + http_response" where
  "status_500_endpoint rq =
     Inr \<lparr>status_code = 500, json = Inl (PyException ''Expecting value'')\<rparr>"

definition diversify_endpoint :: "generate_request \<Rightarrow> py_exception + http_response" where
  "diversify_endpoint rq =
     Inr \<lparr>status_code = 200,
          json = Inr (PDict [(''response'', PStr ''Diversify your holdings.'')])\<rparr>"

definition numeric_endpoint :: "generate_request \<Rightarrow> py_exception + http_response" where
  "numeric_endpoint rq =
     Inr \<lparr>status_code = 200, json = Inr (PDict [(''response'', PInt 42)])\<rparr>"

definition fieldless_endpoint :: "generate_request \<Rightarrow> py_exception + http_response" where
  "fieldless_endpoint rq =
     Inr \<lparr>status_code = 200, json = Inr (PDict [(''done'', PBool True)])\<rparr>"

text \<open>
  Price histories: one that returns the two-bar series closing at 100 and then 110 for
  every symbol, one whose series is empty for the symbol \<^verbatim>\<open>ZZZZ\<close>, one whose second call
  fails, one that refuses every call, and one whose last close is 110 at the first call and
  111 at every later one.
\<close>

definition bar_at :: "nat \<Rightarrow> bar" where
  "bar_at c =
     \<lparr>Open = float_of_nat c, High = float_of_nat c, Low = float_of_nat c,
      Close = float_of_nat c, Volume = 0\<rparr>"

definition rising_history :: history where
  "rising_history i symbol period = Inr [bar_at 100, bar_at 110]"

definition patchy_history :: history where
  "patchy_history i symbol period =
     (if symbol = ''ZZZZ'' then Inr [] else Inr [bar_at 100, bar_at 110])"

definition failing_history :: history where
  "failing_history i symbol period =
     (if i = 1 then Inl (PyException ''No data found, symbol may be delisted'')
      else Inr [bar_at 100, bar_at 110])"

definition offline_history :: history where
  "offline_history i symbol period = Inl (PyException ''Connection refused'')"

definition moving_history :: history where
  "moving_history i symbol period = Inr [bar_at 100, bar_at (if i = 0 then 110 else 111)]"

definition plain_table :: "bar list \<Rightarrow> string" where
  "plain_table rows = concat (map (\<lambda>r. format_2f False (Close r) @ ''\<newline>'') rows)"

section \<open>Properties of the advice relay\<close>

text \<open>
  C2. Whenever the POST returns status 200 and the decoded body is a dict that holds the
  key \<^verbatim>\<open>'response'\<close>, the relay returns exactly the value stored under that key.
\<close>

theorem advice_returns_response_field:
  assumes "post (advice_request query) = Inr response"
    and "status_code response = 200"
    and "json response = Inr (PDict body)"
    and "map_of body ''response'' = Some v"
  shows "ai_financial_advice post query = Inr v"
  using assms by (simp add: ai_financial_advice_def except_all_def)

theorem advice_returns_response_field_witness:
  "ai_financial_advice diversify_endpoint ''Should I buy gold?''
     = Inr (PStr ''Diversify your holdings.'')"
  using advice_returns_response_field
    [of diversify_endpoint "''Should I buy gold?''"
        "\<lparr>status_code = 200,
          json = Inr (PDict [(''response'', PStr ''Diversify your holdings.'')])\<rparr>"
        "[(''response'', PStr ''Diversify your holdings.'')]"
        "PStr ''Diversify your holdings.''"]
  by (simp add: diversify_endpoint_def)

subsection \<open>The branches of the relay\<close>

lemma except_all_Inl: "except_all (Inl e) v = Inr v"
  by (simp add: except_all_def)

lemma except_all_Inr: "except_all (Inr r) v = Inr r"
  by (simp add: except_all_def)

lemma advice_post_raises:
  "post (advice_request query) = Inl e \<Longrightarrow>
     ai_financial_advice post query = Inr (PStr (''AI Response: '' @ query))"
  by (simp add: ai_financial_advice_def except_all_Inl)

lemma advice_other_status:
  "post (advice_request query) = Inr response \<Longrightarrow> status_code response \<noteq> 200 \<Longrightarrow>
     ai_financial_advice post query = Inr (PStr (''AI Response: '' @ query))"
  by (simp add: ai_financial_advice_def except_all_Inr)

lemma advice_json_raises:
  "post (advice_request query) = Inr response \<Longrightarrow> json response = Inl e \<Longrightarrow>
     ai_financial_advice post query = Inr (PStr (''AI Response: '' @ query))"
  by (simp add: ai_financial_advice_def except_all_Inl except_all_Inr)

lemma py_get_no_field:
  "(\<forall>d. body = PDict d \<longrightarrow> map_of d key = None) \<Longrightarrow>
     except_all (py_get body key fallback) fallback = Inr fallback"
  by (cases body) (simp_all add: except_all_def)

lemma advice_no_field:
  "post (advice_request query) = Inr response \<Longrightarrow> json response = Inr body \<Longrightarrow>
     (\<forall>d. body = PDict d \<longrightarrow> map_of d ''response'' = None) \<Longrightarrow>
     ai_financial_advice post query = Inr (PStr (''AI Response: '' @ query))"
  by (simp add: ai_financial_advice_def except_all_Inr py_get_no_field)

text \<open>
  C1, as the code has it. When the POST raises, or answers with a status other than 200, or
  answers 200 with a body that \<^verbatim>\<open>response.json()\<close> cannot decode, the relay returns the
  text \<^verbatim>\<open>AI Response: \<close> followed by the query. It does not return the query unchanged.
\<close>

theorem advice_failure_echoes_prefixed_query:
  assumes "(\<exists>e. post (advice_request query) = Inl e)
         \<or> (\<exists>response. post (advice_request query) = Inr response
               \<and> (status_code response \<noteq> 200 \<or> (\<exists>e. json response = Inl e)))"
  shows "ai_financial_advice post query = Inr (PStr (''AI Response: '' @ query))"
  using assms advice_post_raises advice_other_status advice_json_raises by blast

theorem advice_failure_echoes_prefixed_query_witness:
  "ai_financial_advice unreachable_endpoint ''Should I buy gold?''
     = Inr (PStr ''AI Response: Should I buy gold?'')
   \<and> ai_financial_advice status_500_endpoint ''Should I buy gold?''
     = Inr (PStr ''AI Response: Should I buy gold?'')"
  using advice_failure_echoes_prefixed_query [of unreachable_endpoint "''Should I buy gold?''"]
    advice_failure_echoes_prefixed_query [of status_500_endpoint "''Should I buy gold?''"]
  by (simp add: unreachable_endpoint_def status_500_endpoint_def)

text \<open>
  C1, as the specification words it, fails: with the endpoint unreachable, the relay's
  answer to \<^verbatim>\<open>Should I buy gold?\<close> is not that query.
\<close>

theorem advice_unreachable_is_not_echo:
  "ai_financial_advice unreachable_endpoint ''Should I buy gold?''
     \<noteq> Inr (PStr ''Should I buy gold?'')"
  by (simp add: ai_financial_advice_def except_all_def unreachable_endpoint_def)

text \<open>
  C9. In every failure case (the POST raises, the status is not 200, the body cannot be
  decoded, or the decoded body has no \<^verbatim>\<open>'response'\<close> entry to read) the relay returns
  exactly \<^verbatim>\<open>AI Response: \<close> followed by the query, and this output differs from every
  value that is not a text starting with \<^verbatim>\<open>AI Response: \<close>.
\<close>

theorem advice_failure_output:
  assumes "(\<exists>e. post (advice_request query) = Inl e)
         \<or> (\<exists>response. post (advice_request query) = Inr response
               \<and> (status_code response \<noteq> 200
                  \<or> (\<exists>e. json response = Inl e)
                  \<or> (\<exists>body. json response = Inr body
                        \<and> (\<forall>d. body = PDict d \<longrightarrow> map_of d ''response'' = None))))"
  shows "ai_financial_advice post query = Inr (PStr (''AI Response: '' @ query))
       \<and> (\<forall>v. (\<forall>text. v = PStr text \<longrightarrow> \<not> prefix ''AI Response: '' text)
              \<longrightarrow> ai_financial_advice post query \<noteq> Inr v)"
proof -
  have out: "ai_financial_advice post query = Inr (PStr (''AI Response: '' @ query))"
  proof -
    from assms consider
        (raised) e where "post (advice_request query) = Inl e"
      | (status) response where "post (advice_request query) = Inr response"
          "status_code response \<noteq> 200"
      | (undecodable) response e where "post (advice_request query) = Inr response"
          "json response = Inl e"
      | (fieldless) response body where "post (advice_request query) = Inr response"
          "json response = Inr body" "\<forall>d. body = PDict d \<longrightarrow> map_of d ''response'' = None"
      by blast
    then show ?thesis
    proof cases
      case raised
      then show ?thesis by (rule advice_post_raises)
    next
      case status
      then show ?thesis by (rule advice_other_status)
    next
      case undecodable
      then show ?thesis by (rule advice_json_raises)
    next
      case fieldless
      then show ?thesis by (rule advice_no_field)
    qed
  qed
  have shown: "prefix ''AI Response: '' (''AI Response: '' @ query)"
    by (rule prefixI) (rule refl)
  have "ai_financial_advice post query \<noteq> Inr v"
    if "\<forall>text. v = PStr text \<longrightarrow> \<not> prefix ''AI Response: '' text" for v
  proof
    assume "ai_financial_advice post query = Inr v"
    with out have "v = PStr (''AI Response: '' @ query)" by simp
    with that shown show False by blast
  qed
  with out show ?thesis by blast
qed

theorem advice_failure_output_witness:
  "ai_financial_advice fieldless_endpoint ''Should I buy gold?''
     = Inr (PStr ''AI Response: Should I buy gold?'')
   \<and> ai_financial_advice fieldless_endpoint ''Should I buy gold?''
     \<noteq> Inr (PStr ''Diversify your holdings.'')"
  using advice_failure_output [of fieldless_endpoint "''Should I buy gold?''"]
  by (simp add: fieldless_endpoint_def)

section \<open>Properties of the quote fetcher\<close>

lemma except_Exception_Inr: "except_Exception (Inr v) h = Inr v"
  by (simp add: except_Exception_def)

lemma except_Exception_caught: "except_Exception (Inl (PyException msg)) h = Inr (h msg)"
  by (simp add: except_Exception_def)

lemma except_Exception_passed:
  "except_Exception (Inl (PyBaseException msg)) h = Inl (PyBaseException msg)"
  by (simp add: except_Exception_def)

text \<open>
  C7. When the retrieval fails with an error, the quote fetcher returns (it does not raise)
  the text \<^verbatim>\<open>Error fetching data for {symbol}: {message}\<close>, which starts with
  \<^verbatim>\<open>Error fetching data for\<close> and contains the symbol.
\<close>

theorem quote_fetch_error_is_caught:
  assumes "history 0 symbol period = Inl (PyException msg)"
  shows "\<exists>out. get_stock_data history to_string symbol period = Inr out
           \<and> out = ''Error fetching data for '' @ symbol @ '': '' @ msg
           \<and> prefix ''Error fetching data for'' out
           \<and> sublist symbol out"
proof -
  let ?out = "''Error fetching data for '' @ symbol @ '': '' @ msg"
  have "get_stock_data history to_string symbol period = Inr ?out"
    using assms by (simp add: get_stock_data_def except_Exception_caught)
  moreover have "prefix ''Error fetching data for'' ?out"
    by (rule prefixI [where zs = "'' '' @ symbol @ '': '' @ msg"]) simp
  moreover have "sublist symbol ?out"
    by (rule sublist_appendI) 
  ultimately show ?thesis by blast
qed

theorem quote_fetch_error_is_caught_witness:
  "get_stock_data offline_history plain_table ''AAPL'' ''1mo''
     = Inr ''Error fetching data for AAPL: Connection refused''"
  using quote_fetch_error_is_caught
    [of offline_history "''AAPL''" "''1mo''" "''Connection refused''" plain_table]
  by (simp add: offline_history_def)

section \<open>Properties of the portfolio summarizer\<close>

subsection \<open>Reading a frame and storing its entry\<close>

lemma iloc_last: "xs \<noteq> [] \<Longrightarrow> iloc xs (- 1) = Inr (last xs)"
  by (cases xs rule: rev_cases) (simp_all add: iloc_def nat_add_distrib)

lemma iloc_first: "xs \<noteq> [] \<Longrightarrow> iloc xs 0 = Inr (hd xs)"
  by (cases xs) (simp_all add: iloc_def)

lemma iloc_empty: "iloc [] i = Inl (PyException ''single positional indexer is out-of-bounds'')"
  by (simp add: iloc_def)

lemma make_entry_nonempty: "data \<noteq> [] \<Longrightarrow> make_entry data = Inr (entry_of data)"
  by (simp add: make_entry_def entry_of_def iloc_last iloc_first last_map hd_map)

lemma set_update_cases:
  "(a, b) \<in> set (AList.update k v al) \<Longrightarrow> (a, b) = (k, v) \<or> (a, b) \<in> set al"
  by (induction al) (auto split: if_splits)

lemma portfolio_loop_entries:
  "portfolio_loop history period i pieces pd0 = Inr pd \<Longrightarrow> (symbol, entry) \<in> set pd \<Longrightarrow>
     (symbol, entry) \<in> set pd0
     \<or> (\<exists>j data. j < length pieces \<and> strip (pieces ! j) = symbol
           \<and> history (i + j) symbol period = Inr data \<and> data \<noteq> [] \<and> entry = entry_of data)"
proof (induction pieces arbitrary: i pd0)
  case Nil
  then show ?case by simp
next
  case (Cons s rest)
  from Cons.prems(1) obtain data where fetched: "history i (strip s) period = Inr data"
    by (cases "history i (strip s) period") (simp_all add: Let_def)
  show ?case
  proof (cases "data = []")
    case True
    with Cons.prems(1) fetched
    have "portfolio_loop history period (Suc i) rest pd0 = Inr pd"
      by (simp add: Let_def)
    from Cons.IH [OF this Cons.prems(2)]
    consider (old) "(symbol, entry) \<in> set pd0"
      | (later) j data' where "j < length rest" "strip (rest ! j) = symbol"
          "history (Suc i + j) symbol period = Inr data'" "data' \<noteq> []" "entry = entry_of data'"
      by blast
    then show ?thesis
    proof cases
      case old
      then show ?thesis by simp
    next
      case later
      then have "Suc j < length (s # rest) \<and> strip ((s # rest) ! Suc j) = symbol
           \<and> history (i + Suc j) symbol period = Inr data' \<and> data' \<noteq> [] \<and> entry = entry_of data'"
        by simp
      then show ?thesis by blast
    qed
  next
    case False
    with Cons.prems(1) fetched
    have "portfolio_loop history period (Suc i) rest
            (AList.update (strip s) (entry_of data) pd0) = Inr pd"
      by (simp add: Let_def make_entry_nonempty)
    from Cons.IH [OF this Cons.prems(2)]
    consider (new) "(symbol, entry) \<in> set (AList.update (strip s) (entry_of data) pd0)"
      | (later) j data' where "j < length rest" "strip (rest ! j) = symbol"
          "history (Suc i + j) symbol period = Inr data'" "data' \<noteq> []" "entry = entry_of data'"
      by blast
    then show ?thesis
    proof cases
      case new
      then consider "(symbol, entry) = (strip s, entry_of data)" | "(symbol, entry) \<in> set pd0"
        using set_update_cases [of symbol entry "strip s" "entry_of data" pd0] by blast
      then show ?thesis
      proof cases
        case 1
        with fetched False have "0 < length (s # rest) \<and> strip ((s # rest) ! 0) = symbol
           \<and> history (i + 0) symbol period = Inr data \<and> data \<noteq> [] \<and> entry = entry_of data"
          by simp
        then show ?thesis by blast
      next
        case 2
        then show ?thesis by simp
      qed
    next
      case later
      then have "Suc j < length (s # rest) \<and> strip ((s # rest) ! Suc j) = symbol
           \<and> history (i + Suc j) symbol period = Inr data' \<and> data' \<noteq> [] \<and> entry = entry_of data'"
        by simp
      then show ?thesis by blast
    qed
  qed
qed

subsection \<open>The sample series, evaluated\<close>

text \<open>
  The series closing at 100 and then at 110: the change is 10, the quotient is the binary
  floating-point number nearest to one tenth, and its product with 100 rounds to 10 again.
\<close>

lemmas round_eval = round_float64_def round_half_even_def bit_length.simps reduce.simps Let_def

lemmas op_eval = scaled_def signed_def Let_def

lemmas format_eval = round_half_even_def scaled_def Let_def decimal.simps digit_char_def
  sign_text_def

lemma float_10: "float_of_nat 10 = Finite False 5 1"
  by (simp add: float_of_nat_def round_eval)

lemma float_11: "float_of_nat 11 = Finite False 11 0"
  by (simp add: float_of_nat_def round_eval)

lemma float_100: "float_of_nat 100 = Finite False 25 2"
  by (simp add: float_of_nat_def round_eval)

lemma float_110: "float_of_nat 110 = Finite False 55 1"
  by (simp add: float_of_nat_def round_eval)

lemma float_111: "float_of_nat 111 = Finite False 111 0"
  by (simp add: float_of_nat_def round_eval)

lemma round_10: "round_float64 False 10 (Suc 0) = Finite False 5 1"
  by (simp add: round_eval)

lemma round_11: "round_float64 False 11 (Suc 0) = Finite False 11 0"
  by (simp add: round_eval)

lemma change_10: "fsub (float_of_nat 110) (float_of_nat 100) = float_of_nat 10"
  by (simp add: float_10 float_100 float_110 op_eval round_10)

lemma change_11: "fsub (float_of_nat 111) (float_of_nat 100) = float_of_nat 11"
  by (simp add: float_11 float_100 float_111 op_eval round_11)

lemma round_tenth: "round_float64 False 5 50 = Finite False 3602879701896397 (- 55)"
  by (simp add: round_eval)

lemma round_11_100: "round_float64 False 11 100 = Finite False 7926335344172073 (- 56)"
  by (simp add: round_eval)

lemma ratio_10:
  "fdiv (float_of_nat 10) (float_of_nat 100) = Finite False 3602879701896397 (- 55)"
  by (simp add: float_10 float_100 op_eval round_tenth)

lemma ratio_11:
  "fdiv (float_of_nat 11) (float_of_nat 100) = Finite False 7926335344172073 (- 56)"
  by (simp add: float_11 float_100 op_eval round_11_100)

lemma round_pct_10: "round_float64 False 90071992547409925 9007199254740992 = Finite False 5 1"
  by (simp add: round_eval)

lemma round_pct_11:
  "round_float64 False 198158383604301825 18014398509481984 = Finite False 11 0"
  by (simp add: round_eval)

lemma percent_10:
  "fmul (Finite False 3602879701896397 (- 55)) (float_of_nat 100) = float_of_nat 10"
  by (simp add: float_10 float_100 op_eval round_pct_10)

lemma percent_11:
  "fmul (Finite False 7926335344172073 (- 56)) (float_of_nat 100) = float_of_nat 11"
  by (simp add: float_11 float_100 op_eval round_pct_11)

lemma format_110: "format_2f False (float_of_nat 110) = ''110.00''"
  by (simp add: float_110 format_eval)

lemma format_111: "format_2f False (float_of_nat 111) = ''111.00''"
  by (simp add: float_111 format_eval)

lemma format_10: "format_2f True (float_of_nat 10) = ''+10.00''"
  by (simp add: float_10 format_eval)

lemma format_11: "format_2f True (float_of_nat 11) = ''+11.00''"
  by (simp add: float_11 format_eval)

lemma split_single: "split ''AAPL'' CHR '','' = [''AAPL'']"
  by (simp add: split_def)

lemma strip_AAPL: "strip ''AAPL'' = ''AAPL''"
  by (simp add: strip_def is_space_def whitespace_def)

lemma sample_entry:
  "entry_of [bar_at 100, bar_at 110]
     = \<lparr>current_price = float_of_nat 110, change = float_of_nat 10,
        change_pct = float_of_nat 10\<rparr>"
  by (simp add: entry_of_def bar_at_def change_10 ratio_10 percent_10)

lemma sample_line:
  "portfolio_line symbol (entry_of [bar_at 100, bar_at 110])
     = symbol @ '': $110.00 (+10.00, +10.00%)\<newline>''"
  by (simp add: portfolio_line_def sample_entry format_110 format_10)

subsection \<open>The arithmetic at its edges\<close>

text \<open>
  A first close of zero raises nothing: the quotient is an infinity or NaN, and the line is
  printed with \<^verbatim>\<open>inf\<close> or \<^verbatim>\<open>nan\<close>. Ties round to the even digit, and a negative
  value keeps its sign when it rounds to zero.
\<close>

lemma division_by_zero: "fdiv (float_of_nat 5) (float_of_nat 0) = Infinity False"
  by (simp add: float_of_nat_def round_eval)

lemma zero_by_zero: "fdiv (float_of_nat 0) (float_of_nat 0) = NaN"
  by (simp add: float_of_nat_def round_eval)

lemma format_specials:
  "format_2f True NaN = ''+nan''" "format_2f False NaN = ''nan''"
  "format_2f True (Infinity False) = ''+inf''" "format_2f False (Infinity True) = ''-inf''"
  by (simp_all add: sign_text_def)

lemma format_ties:
  "format_2f False (Finite False 1 (- 3)) = ''0.12''"
  "format_2f False (Finite False 3 (- 3)) = ''0.38''"
  "format_2f True (Finite True 1 (- 10)) = ''-0.00''"
  by (simp_all add: format_eval)

lemma flat_start_line:
  "portfolio_line ''X'' (entry_of [bar_at 0, bar_at 5]) = ''X: $5.00 (+5.00, +inf%)\<newline>''"
proof -
  have zero: "float_of_nat 0 = Finite False 0 0" and five: "float_of_nat 5 = Finite False 5 0"
    by (simp_all add: float_of_nat_def round_eval)
  have "fsub (float_of_nat 5) (float_of_nat 0) = Finite False 5 0"
    by (simp add: zero five op_eval round_eval)
  moreover have "fmul (Infinity False) (float_of_nat 100) = Infinity False"
    by (simp add: float_100)
  moreover have "format_2f False (Finite False 5 0) = ''5.00''"
    and "format_2f True (Finite False 5 0) = ''+5.00''"
    by (simp_all add: format_eval)
  ultimately show ?thesis
    by (simp add: portfolio_line_def entry_of_def bar_at_def zero five sign_text_def
        del: format_2f.simps(3))
qed

subsection \<open>The loop, when every retrieval returns\<close>

text \<open>
  When no history call raises, the loop returns the dict obtained by assigning the stored
  entries in input order. A call that raises ends the loop with that exception, and nothing
  else in the loop raises.
\<close>

lemma stored_Nil: "stored [] frames = []"
  by (simp add: stored_def)

lemma stored_Cons:
  "stored (s # rest) (data # frames)
     = (if data \<noteq> [] then [(strip s, entry_of data)] else []) @ stored rest frames"
  by (simp add: stored_def)

lemma portfolio_loop_returns:
  assumes "map (\<lambda>(j, s). history j (strip s) period) (enumerate i pieces) = map Inr frames"
  shows "portfolio_loop history period i pieces pd
           = Inr (fold (\<lambda>(k, e). AList.update k e) (stored pieces frames) pd)"
  using assms
proof (induction pieces arbitrary: i frames pd)
  case Nil
  then show ?case by (simp add: stored_Nil)
next
  case (Cons s rest)
  from Cons.prems obtain data others where frames: "frames = data # others"
    by (cases frames) simp_all
  from Cons.prems frames have here: "history i (strip s) period = Inr data"
    and later: "map (\<lambda>(j, s). history j (strip s) period) (enumerate (Suc i) rest)
                  = map Inr others"
    by simp_all
  show ?case
  proof (cases "data = []")
    case True
    then show ?thesis
      using here Cons.IH [OF later] by (simp add: frames stored_Cons)
  next
    case False
    then show ?thesis
      using here Cons.IH [OF later] by (simp add: frames stored_Cons make_entry_nonempty)
  qed
qed

lemma portfolio_loop_raises:
  assumes "map (\<lambda>(j, s). history j (strip s) period) (enumerate i before) = map Inr frames"
    and "history (i + length before) (strip s) period = Inl e"
  shows "portfolio_loop history period i (before @ s # rest) pd = Inl e"
  using assms
proof (induction before arbitrary: i frames pd)
  case Nil
  then show ?case by simp
next
  case (Cons b before)
  from Cons.prems(1) obtain data others where frames: "frames = data # others"
    by (cases frames) simp_all
  from Cons.prems(1) frames have here: "history i (strip b) period = Inr data"
    and later: "map (\<lambda>(j, s). history j (strip s) period) (enumerate (Suc i) before)
                  = map Inr others"
    by simp_all
  from Cons.prems(2) have fails: "history (Suc i + length before) (strip s) period = Inl e"
    by simp
  show ?case
    using here Cons.IH [OF later fails] by (simp add: make_entry_nonempty)
qed

lemma portfolio_loop_error_source:
  "portfolio_loop history period i pieces pd = Inl e \<Longrightarrow> \<exists>j s. history j s period = Inl e"
proof (induction pieces arbitrary: i pd)
  case Nil
  then show ?case by simp
next
  case (Cons s rest)
  show ?case
  proof (cases "history i (strip s) period")
    case (Inl raised)
    with Cons.prems have "raised = e" by simp
    with Inl show ?thesis by blast
  next
    case (Inr data)
    show ?thesis
    proof (cases "data = []")
      case True
      with Inr Cons.prems have "portfolio_loop history period (Suc i) rest pd = Inl e"
        by simp
      then show ?thesis by (rule Cons.IH)
    next
      case False
      with Inr Cons.prems
      have "portfolio_loop history period (Suc i) rest
              (AList.update (strip s) (entry_of data) pd) = Inl e"
        by (simp add: make_entry_nonempty)
      then show ?thesis by (rule Cons.IH)
    qed
  qed
qed

lemma fold_update_keys:
  "fst ` set (fold (\<lambda>(k, e). AList.update k e) kvs pd) = fst ` set pd \<union> fst ` set kvs"
proof (induction kvs arbitrary: pd)
  case Nil
  then show ?case by simp
next
  case (Cons kv kvs)
  obtain k e where kv: "kv = (k, e)" by (cases kv)
  have "fst ` set (fold (\<lambda>(k, e). AList.update k e) (kv # kvs) pd)
          = fst ` set (AList.update k e pd) \<union> fst ` set kvs"
    using Cons.IH [of "AList.update k e pd"] by (simp add: kv)
  also have "\<dots> = fst ` set pd \<union> fst ` set (kv # kvs)"
    unfolding dom_update by (simp add: kv)
  finally show ?case .
qed

lemma fold_update_distinct:
  "distinct (map fst pd) \<Longrightarrow> distinct (map fst (fold (\<lambda>(k, e). AList.update k e) kvs pd))"
proof (induction kvs arbitrary: pd)
  case Nil
  then show ?case by simp
next
  case (Cons kv kvs)
  obtain k e where kv: "kv = (k, e)" by (cases kv)
  from Cons.prems have "distinct (map fst (AList.update k e pd))"
    by (rule distinct_update)
  from Cons.IH [OF this] show ?case by (simp add: kv)
qed

lemma fold_update_map_of:
  "map_of (fold (\<lambda>(k, e). AList.update k e) kvs pd) = map_of (rev kvs @ pd)"
proof (induction kvs arbitrary: pd)
  case Nil
  then show ?case by simp
next
  case (Cons kv kvs)
  obtain k e where kv: "kv = (k, e)" by (cases kv)
  have "map_of (fold (\<lambda>(k, e). AList.update k e) (kv # kvs) pd)
          = map_of (rev kvs @ AList.update k e pd)"
    using Cons.IH [of "AList.update k e pd"] by (simp add: kv)
  also have "\<dots> = map_of (rev (kv # kvs) @ pd)"
    by (simp add: kv update_conv' map_add_def fun_eq_iff split: option.splits)
  finally show ?case .
qed

lemma update_fresh: "k \<notin> fst ` set pd \<Longrightarrow> AList.update k e pd = pd @ [(k, e)]"
  by (induction pd) auto

lemma fold_update_fresh:
  "distinct (map fst kvs) \<Longrightarrow> fst ` set kvs \<inter> fst ` set pd = {} \<Longrightarrow>
     fold (\<lambda>(k, e). AList.update k e) kvs pd = pd @ kvs"
proof (induction kvs arbitrary: pd)
  case Nil
  then show ?case by simp
next
  case (Cons kv kvs)
  obtain k e where kv: "kv = (k, e)" by (cases kv)
  from Cons.prems kv have fresh: "k \<notin> fst ` set pd" by auto
  from Cons.prems kv have "distinct (map fst kvs)"
    and "fst ` set kvs \<inter> fst ` set (pd @ [(k, e)]) = {}"
    by auto
  from Cons.IH [OF this] show ?case
    by (simp add: kv update_fresh [OF fresh])
qed

lemma format_report_concat:
  "format_report pd = report_header @ concat (map (\<lambda>(k, e). portfolio_line k e) pd)"
proof -
  have "foldl (\<lambda>result (symbol, data). result @ portfolio_line symbol data) start pd
          = start @ concat (map (\<lambda>(k, e). portfolio_line k e) pd)" for start
    by (induction pd arbitrary: start) auto
  then show ?thesis by (simp add: format_report_def)
qed

lemma retrievals_length:
  "retrievals history period pieces = map Inr frames \<Longrightarrow> length frames = length pieces"
  by (metis length_map length_enumerate retrievals_def)

lemma analyze_portfolio_returns:
  assumes "retrievals history period (split symbols CHR '','') = map Inr frames"
  shows "analyze_portfolio history symbols period
           = Inr (format_report (fold (\<lambda>(k, e). AList.update k e)
                    (stored (split symbols CHR '','') frames) []))"
  using portfolio_loop_returns [of history period 0 "split symbols CHR '',''" frames "[]"] assms
  by (simp add: analyze_portfolio_def retrievals_def except_Exception_Inr)

lemma stored_all:
  "[] \<notin> set frames \<Longrightarrow>
     stored pieces frames = map (\<lambda>(s, data). (strip s, entry_of data)) (zip pieces frames)"
proof -
  assume "[] \<notin> set frames"
  then have "filter (\<lambda>(s, data). data \<noteq> []) (zip pieces frames) = zip pieces frames"
    by (auto simp: filter_id_conv dest: set_zip_rightD)
  then show ?thesis by (simp add: stored_def)
qed

lemma stored_all_keys:
  "[] \<notin> set frames \<Longrightarrow> length frames = length pieces \<Longrightarrow>
     map fst (stored pieces frames) = map strip pieces"
  by (simp add: stored_all) (induction pieces frames rule: list_induct2', auto)

subsection \<open>The text lines of a summary\<close>

lemma split_fields_line:
  "sep \<notin> set l \<Longrightarrow>
     split_fields sep field (l @ sep # rest) = (rev field @ l) # split_fields sep [] rest"
  by (induction l arbitrary: field) auto

lemma split_fields_lines:
  "\<forall>l \<in> set ls. sep \<notin> set l \<Longrightarrow>
     split_fields sep [] (concat (map (\<lambda>l. l @ [sep]) ls)) = ls @ [[]]"
proof (induction ls)
  case Nil
  then show ?case by simp
next
  case (Cons l ls)
  then have "sep \<notin> set l" and "\<forall>l \<in> set ls. sep \<notin> set l" by simp_all
  then show ?case
    using Cons.IH split_fields_line [of sep l "[]" "concat (map (\<lambda>l. l @ [sep]) ls)"]
    by simp
qed

lemma lines_of_terminated:
  "\<forall>l \<in> set ls. CHR ''\<newline>'' \<notin> set l \<Longrightarrow>
     lines_of (concat (map (\<lambda>l. l @ ''\<newline>'') ls)) = ls"
  using split_fields_lines [of ls "CHR ''\<newline>''"]
  by (simp add: lines_of_def split_def)

lemma split_fields_chars:
  "p \<in> set (split_fields sep field s) \<Longrightarrow> set p \<subseteq> set field \<union> set s"
proof (induction s arbitrary: field)
  case Nil
  then show ?case by simp
next
  case (Cons c cs)
  show ?case
  proof (cases "c = sep")
    case True
    with Cons.prems have "p = rev field \<or> p \<in> set (split_fields sep [] cs)" by simp
    then show ?thesis
    proof
      assume "p = rev field"
      then show ?thesis by auto
    next
      assume "p \<in> set (split_fields sep [] cs)"
      from Cons.IH [OF this] show ?thesis by auto
    qed
  next
    case False
    with Cons.prems have "p \<in> set (split_fields sep (c # field) cs)" by simp
    from Cons.IH [OF this] show ?thesis by auto
  qed
qed

lemma split_chars: "p \<in> set (split s sep) \<Longrightarrow> set p \<subseteq> set s"
  using split_fields_chars [of p sep "[]" s] by (simp add: split_def)

lemma strip_chars: "set (strip s) \<subseteq> set s"
proof -
  have "set (dropWhile P xs) \<subseteq> set xs" for P and xs :: string
    by (meson set_dropWhileD subsetI)
  then have "set (rev (dropWhile is_space (rev (dropWhile is_space s))))
               \<subseteq> set (dropWhile is_space s)"
    by (metis set_rev)
  also have "\<dots> \<subseteq> set s"
    by (meson set_dropWhileD subsetI)
  finally show ?thesis by (simp add: strip_def)
qed

lemma digit_char_plain: "d < 10 \<Longrightarrow> digit_char d \<noteq> CHR ''\<newline>''"
proof -
  assume "d < 10"
  then have "''0123456789'' ! d \<in> set ''0123456789''"
    by (intro nth_mem) simp
  then show ?thesis by (auto simp: digit_char_def)
qed

lemma decimal_plain: "CHR ''\<newline>'' \<notin> set (decimal n)"
proof (induction n rule: decimal.induct)
  case (1 n)
  show ?case
  proof (cases "n < 10")
    case True
    then show ?thesis
      using digit_char_plain [of n] by (subst decimal.simps) simp
  next
    case False
    then show ?thesis
      using 1 digit_char_plain [of "n mod 10"] by (subst decimal.simps) simp
  qed
qed

lemma format_2f_plain: "CHR ''\<newline>'' \<notin> set (format_2f always_sign x)"
proof (cases x)
  case (Finite s m e)
  obtain a b where ab: "scaled (100 * m) e = (a, b)" by (cases "scaled (100 * m) e")
  have "round_half_even a b mod 100 div 10 < 10" by simp
  then show ?thesis
    using digit_char_plain [of "round_half_even a b mod 100 div 10"]
      digit_char_plain [of "round_half_even a b mod 10"]
    by (simp add: Finite ab Let_def sign_text_def decimal_plain)
next
  case (Infinity s)
  then show ?thesis by (simp add: sign_text_def)
next
  case NaN
  then show ?thesis by (simp add: sign_text_def)
qed

lemma portfolio_line_text: "butlast (portfolio_line k e) @ ''\<newline>'' = portfolio_line k e"
  by (simp add: portfolio_line_def butlast_append)

lemma lines_with_feed:
  "map (\<lambda>l. l @ ''\<newline>'') (map (\<lambda>(k, e). butlast (portfolio_line k e)) pd)
     = map (\<lambda>(k, e). portfolio_line k e) pd"
  by (induction pd) (auto simp: portfolio_line_text)

lemma portfolio_line_plain:
  "CHR ''\<newline>'' \<notin> set k \<Longrightarrow> CHR ''\<newline>'' \<notin> set (butlast (portfolio_line k e))"
  by (simp add: portfolio_line_def butlast_append format_2f_plain)

lemma report_header_lines:
  "report_header = concat (map (\<lambda>l. l @ ''\<newline>'') [''Portfolio Analysis:'', replicate 50 CHR ''=''])"
  by (simp add: report_header_def)

lemma lines_of_report:
  assumes "\<forall>k \<in> fst ` set pd. CHR ''\<newline>'' \<notin> set k"
  shows "lines_of (format_report pd)
           = [''Portfolio Analysis:'', replicate 50 CHR ''='']
             @ map (\<lambda>(k, e). butlast (portfolio_line k e)) pd"
proof -
  let ?lines = "[''Portfolio Analysis:'', replicate 50 CHR ''='']
                  @ map (\<lambda>(k, e). butlast (portfolio_line k e)) pd"
  have "format_report pd = concat (map (\<lambda>l. l @ ''\<newline>'') ?lines)"
    using lines_with_feed [of pd, symmetric]
    by (simp add: format_report_concat report_header_lines del: map_map)
  moreover have "\<forall>l \<in> set ?lines. CHR ''\<newline>'' \<notin> set l"
    using assms portfolio_line_plain by fastforce
  ultimately show ?thesis
    using lines_of_terminated [of ?lines] by simp
qed

lemma symbol_lines_report:
  assumes "\<forall>k \<in> fst ` set pd. CHR ''\<newline>'' \<notin> set k"
  shows "map (\<lambda>l. l @ ''\<newline>'') (symbol_lines (format_report pd))
           = map (\<lambda>(k, e). portfolio_line k e) pd"
proof -
  have "symbol_lines (format_report pd) = map (\<lambda>(k, e). butlast (portfolio_line k e)) pd"
    using lines_of_report [OF assms] by (simp add: symbol_lines_def)
  then show ?thesis
    using lines_with_feed [of pd] by simp
qed

lemma stored_keys_plain:
  assumes "CHR ''\<newline>'' \<notin> set symbols"
  shows "\<forall>k \<in> fst ` set (stored (split symbols sep) frames). CHR ''\<newline>'' \<notin> set k"
proof
  fix k
  assume "k \<in> fst ` set (stored (split symbols sep) frames)"
  then obtain s where "s \<in> set (split symbols sep)" and "k = strip s"
    by (auto simp: stored_def dest: set_zip_leftD)
  then have "set k \<subseteq> set symbols"
    using split_chars [of s symbols sep] strip_chars [of s] by blast
  with assms show "CHR ''\<newline>'' \<notin> set k" by blast
qed

subsection \<open>The sample inputs, evaluated\<close>

lemma strip_MSFT: "strip ''MSFT'' = ''MSFT''"
  by (simp add: strip_def is_space_def whitespace_def)

lemma strip_ZZZZ: "strip ''ZZZZ'' = ''ZZZZ''"
  by (simp add: strip_def is_space_def whitespace_def)

lemma strip_GOOG: "strip ''GOOG'' = ''GOOG''"
  by (simp add: strip_def is_space_def whitespace_def)

lemma strip_spaced: "strip '' AAPL'' = ''AAPL''"
  by (simp add: strip_def is_space_def whitespace_def)

lemmas strip_samples = strip_AAPL strip_MSFT strip_ZZZZ strip_GOOG strip_spaced

lemma split_pair: "split ''AAPL,MSFT'' CHR '','' = [''AAPL'', ''MSFT'']"
  by (simp add: split_def)

lemma split_twice: "split ''AAPL,AAPL'' CHR '','' = [''AAPL'', ''AAPL'']"
  by (simp add: split_def)

lemma split_spaced: "split ''AAPL, AAPL'' CHR '','' = [''AAPL'', '' AAPL'']"
  by (simp add: split_def)

lemma split_patchy: "split ''AAPL,ZZZZ,MSFT'' CHR '','' = [''AAPL'', ''ZZZZ'', ''MSFT'']"
  by (simp add: split_def)

lemma split_three: "split ''AAPL,MSFT,GOOG'' CHR '','' = [''AAPL'', ''MSFT'', ''GOOG'']"
  by (simp add: split_def)

lemma later_entry:
  "entry_of [bar_at 100, bar_at 111]
     = \<lparr>current_price = float_of_nat 111, change = float_of_nat 11,
        change_pct = float_of_nat 11\<rparr>"
  by (simp add: entry_of_def bar_at_def change_11 ratio_11 percent_11)

lemma later_line:
  "portfolio_line symbol (entry_of [bar_at 100, bar_at 111])
     = symbol @ '': $111.00 (+11.00, +11.00%)\<newline>''"
  by (simp add: portfolio_line_def later_entry format_111 format_11)

subsection \<open>The percent change\<close>

lemma report_holds_line:
  assumes "(symbol, entry) \<in> set portfolio_data"
  shows "\<exists>before after.
           format_report portfolio_data = before @ portfolio_line symbol entry @ after"
proof -
  from assms obtain earlier later where "portfolio_data = earlier @ (symbol, entry) # later"
    by (meson split_list)
  then have "format_report portfolio_data
      = (report_header @ concat (map (\<lambda>(k, e). portfolio_line k e) earlier))
        @ portfolio_line symbol entry
        @ concat (map (\<lambda>(k, e). portfolio_line k e) later)"
    by (simp add: format_report_concat)
  then show ?thesis by blast
qed

lemma rising_line:
  assumes "data \<noteq> []" and "Close (hd data) = float_of_nat 100"
    and "Close (last data) = float_of_nat 110"
  shows "portfolio_line symbol (entry_of data) = symbol @ '': $110.00 (+10.00, +10.00%)\<newline>''"
  using assms(2,3)
  by (simp add: portfolio_line_def entry_of_def change_10 ratio_10 percent_10 format_110
      format_10)

text \<open>
  C3. Every entry the summarizer holds when its loop ends was computed from a non-empty
  series fetched for that symbol: its absolute change is the last close minus the first
  close, and its percent change is that absolute change divided by the first close, times
  100. The text the summarizer returns holds the line printed for that entry, and for a
  series whose first close is 100 and whose last close is 110 that line of the returned
  text is \<^verbatim>\<open>{symbol}: $110.00 (+10.00, +10.00%)\<close>: the percent change reads
  \<^verbatim>\<open>+10.00%\<close>, plus sign included.
\<close>

theorem percent_change_formula:
  assumes "portfolio_loop history period 0 (split symbols CHR '','') [] = Inr portfolio_data"
    and "(symbol, entry) \<in> set portfolio_data"
  shows "\<exists>i data. i < length (split symbols CHR '','')
           \<and> strip (split symbols CHR '','' ! i) = symbol
           \<and> history i symbol period = Inr data \<and> data \<noteq> []
           \<and> change entry = fsub (Close (last data)) (Close (hd data))
           \<and> change_pct entry = fmul (fdiv (change entry) (Close (hd data))) (float_of_nat 100)
           \<and> (\<exists>before after.
                 analyze_portfolio history symbols period
                   = Inr (before @ portfolio_line symbol entry @ after))
           \<and> (Close (hd data) = float_of_nat 100 \<and> Close (last data) = float_of_nat 110
                \<longrightarrow> (\<exists>before after.
                       analyze_portfolio history symbols period
                         = Inr (before @ symbol @ '': $110.00 (+10.00, +10.00%)\<newline>''
                                @ after)))"
proof -
  from portfolio_loop_entries [OF assms]
  obtain i data where at: "i < length (split symbols CHR '','')"
      "strip (split symbols CHR '','' ! i) = symbol"
      "history i symbol period = Inr data" "data \<noteq> []" "entry = entry_of data"
    by auto
  have difference: "change entry = fsub (Close (last data)) (Close (hd data))"
    using at(5) by (simp add: entry_of_def)
  have percent: "change_pct entry
      = fmul (fdiv (change entry) (Close (hd data))) (float_of_nat 100)"
    using at(5) by (simp add: entry_of_def)
  have run: "analyze_portfolio history symbols period = Inr (format_report portfolio_data)"
    using assms(1) by (simp add: analyze_portfolio_def except_Exception_Inr)
  from report_holds_line [OF assms(2)] obtain before after
    where printed: "format_report portfolio_data = before @ portfolio_line symbol entry @ after"
    by blast
  have held: "\<exists>before after.
      analyze_portfolio history symbols period = Inr (before @ portfolio_line symbol entry @ after)"
    using run printed by auto
  have "\<exists>before after. analyze_portfolio history symbols period
          = Inr (before @ symbol @ '': $110.00 (+10.00, +10.00%)\<newline>'' @ after)"
    if "Close (hd data) = float_of_nat 100" "Close (last data) = float_of_nat 110"
  proof -
    have "portfolio_line symbol entry = symbol @ '': $110.00 (+10.00, +10.00%)\<newline>''"
      unfolding at(5) using at(4) that by (rule rising_line)
    with run printed
    have "analyze_portfolio history symbols period
            = Inr (before @ symbol @ '': $110.00 (+10.00, +10.00%)\<newline>'' @ after)"
      by simp
    then show ?thesis by blast
  qed
  with at(1-4) difference percent held show ?thesis by blast
qed

theorem percent_change_formula_witness:
  "analyze_portfolio rising_history ''AAPL'' ''1mo''
     = Inr (report_header @ ''AAPL: $110.00 (+10.00, +10.00%)\<newline>'')
   \<and> (\<exists>before after.
         analyze_portfolio rising_history ''AAPL'' ''1mo''
           = Inr (before @ ''AAPL: $110.00 (+10.00, +10.00%)\<newline>'' @ after))
   \<and> change (entry_of [bar_at 100, bar_at 110]) = float_of_nat 10
   \<and> change_pct (entry_of [bar_at 100, bar_at 110]) = float_of_nat 10"
proof -
  let ?entry = "entry_of [bar_at 100, bar_at 110]"
  have run: "portfolio_loop rising_history ''1mo'' 0 (split ''AAPL'' CHR '','') []
               = Inr [(''AAPL'', ?entry)]"
    by (simp add: split_single strip_AAPL rising_history_def make_entry_nonempty)
  have listed: "(''AAPL'', ?entry) \<in> set [(''AAPL'', ?entry)]" by simp
  from percent_change_formula [OF run listed]
  obtain i data where found: "rising_history i ''AAPL'' ''1mo'' = Inr data"
      "change ?entry = fsub (Close (last data)) (Close (hd data))"
      "change_pct ?entry = fmul (fdiv (change ?entry) (Close (hd data))) (float_of_nat 100)"
      "Close (hd data) = float_of_nat 100 \<and> Close (last data) = float_of_nat 110
         \<longrightarrow> (\<exists>before after.
               analyze_portfolio rising_history ''AAPL'' ''1mo''
                 = Inr (before @ ''AAPL'' @ '': $110.00 (+10.00, +10.00%)\<newline>'' @ after))"
    by blast
  from found(1) have data: "data = [bar_at 100, bar_at 110]"
    by (simp add: rising_history_def)
  have first_close: "Close (hd data) = float_of_nat 100"
    and last_close: "Close (last data) = float_of_nat 110"
    by (simp_all add: data bar_at_def)
  have difference: "change ?entry = float_of_nat 10"
    using found(2) unfolding first_close last_close by (simp only: change_10)
  have percent: "change_pct ?entry = float_of_nat 10"
    using found(3) unfolding difference first_close by (simp only: ratio_10 percent_10)
  have held: "\<exists>before after. analyze_portfolio rising_history ''AAPL'' ''1mo''
      = Inr (before @ ''AAPL: $110.00 (+10.00, +10.00%)\<newline>'' @ after)"
    using found(4) first_close last_close by simp
  have "analyze_portfolio rising_history ''AAPL'' ''1mo'' = Inr (format_report [(''AAPL'', ?entry)])"
    using run by (simp add: analyze_portfolio_def except_Exception_Inr)
  then have whole: "analyze_portfolio rising_history ''AAPL'' ''1mo''
      = Inr (report_header @ ''AAPL: $110.00 (+10.00, +10.00%)\<newline>'')"
    by (simp add: format_report_concat sample_line)
  from whole held difference percent show ?thesis by blast
qed

subsection \<open>One line per symbol\<close>

text \<open>
  C4, as the code has it. When every field of the comma-separated input resolves to a
  non-empty series and the trimmed symbols are pairwise distinct, the summary is the header
  and the separator followed by one line per field, in input order, each of the form
  \<^verbatim>\<open>{symbol}: ${current_price:.2f} ({change:+.2f}, {change_pct:+.2f}%)\<close>; when the input
  holds no line feed, these are exactly the text lines after the separator, as many as
  there are fields.
\<close>

theorem one_line_per_distinct_symbol:
  assumes "retrievals history period (split symbols CHR '','') = map Inr frames"
    and "[] \<notin> set frames"
    and "distinct (map strip (split symbols CHR '',''))"
  shows "\<exists>report. analyze_portfolio history symbols period = Inr report
      \<and> report = report_header
          @ concat (map (\<lambda>(s, data). portfolio_line (strip s) (entry_of data))
                      (zip (split symbols CHR '','') frames))
      \<and> (CHR ''\<newline>'' \<notin> set symbols \<longrightarrow>
           length (symbol_lines report) = length (split symbols CHR '','')
         \<and> map (\<lambda>l. l @ ''\<newline>'') (symbol_lines report)
             = map (\<lambda>(s, data). portfolio_line (strip s) (entry_of data))
                 (zip (split symbols CHR '','') frames))"
proof -
  let ?pieces = "split symbols CHR '',''"
  let ?pd = "stored ?pieces frames"
  have len: "length frames = length ?pieces"
    using assms(1) by (rule retrievals_length)
  have keys: "map fst ?pd = map strip ?pieces"
    using assms(2) len by (rule stored_all_keys)
  have "fold (\<lambda>(k, e). AList.update k e) ?pd [] = [] @ ?pd"
    by (rule fold_update_fresh) (simp_all add: keys assms(3))
  then have run: "analyze_portfolio history symbols period = Inr (format_report ?pd)"
    using analyze_portfolio_returns [OF assms(1)] by simp
  have lines: "map (\<lambda>(k, e). portfolio_line k e) ?pd
      = map (\<lambda>(s, data). portfolio_line (strip s) (entry_of data)) (zip ?pieces frames)"
    by (simp add: stored_all [OF assms(2)] case_prod_unfold)
  have shape: "format_report ?pd = report_header
      @ concat (map (\<lambda>(s, data). portfolio_line (strip s) (entry_of data)) (zip ?pieces frames))"
    by (simp only: format_report_concat lines)
  have "length (symbol_lines (format_report ?pd)) = length ?pieces
      \<and> map (\<lambda>l. l @ ''\<newline>'') (symbol_lines (format_report ?pd))
          = map (\<lambda>(s, data). portfolio_line (strip s) (entry_of data)) (zip ?pieces frames)"
    if plain: "CHR ''\<newline>'' \<notin> set symbols"
  proof -
    have fed: "map (\<lambda>l. l @ ''\<newline>'') (symbol_lines (format_report ?pd))
        = map (\<lambda>(k, e). portfolio_line k e) ?pd"
      using stored_keys_plain [OF plain] by (rule symbol_lines_report)
    then have "length (symbol_lines (format_report ?pd)) = length ?pd"
      by (metis length_map)
    also have "\<dots> = length ?pieces"
      by (metis keys length_map)
    finally show ?thesis using fed lines by simp
  qed
  with run shape show ?thesis by simp
qed

theorem one_line_per_distinct_symbol_witness:
  "\<exists>report. analyze_portfolio rising_history ''AAPL,MSFT'' ''1mo'' = Inr report
     \<and> report = report_header
         @ ''AAPL: $110.00 (+10.00, +10.00%)\<newline>MSFT: $110.00 (+10.00, +10.00%)\<newline>''
     \<and> length (symbol_lines report) = 2"
proof -
  let ?frames = "[[bar_at 100, bar_at 110], [bar_at 100, bar_at 110]]"
  have fetched: "retrievals rising_history ''1mo'' (split ''AAPL,MSFT'' CHR '','')
                   = map Inr ?frames"
    by (simp add: split_pair retrievals_def rising_history_def)
  have nonempty: "[] \<notin> set ?frames" by simp
  have different: "distinct (map strip (split ''AAPL,MSFT'' CHR '',''))"
    by (simp add: split_pair strip_samples)
  have plain: "CHR ''\<newline>'' \<notin> set ''AAPL,MSFT''" by simp
  from one_line_per_distinct_symbol [OF fetched nonempty different] plain
  show ?thesis
    by (simp add: split_pair strip_samples sample_line)
qed

text \<open>
  C4, as the specification words it, fails when a symbol is listed twice: for the input
  \<^verbatim>\<open>AAPL,AAPL\<close> both fields resolve to a non-empty series, the list has two fields,
  and the summary has one per-symbol line.
\<close>

theorem duplicate_symbol_has_one_line:
  "length (split ''AAPL,AAPL'' CHR '','') = 2
   \<and> retrievals rising_history ''1mo'' (split ''AAPL,AAPL'' CHR '','')
       = [Inr [bar_at 100, bar_at 110], Inr [bar_at 100, bar_at 110]]
   \<and> analyze_portfolio rising_history ''AAPL,AAPL'' ''1mo''
       = Inr (report_header @ ''AAPL: $110.00 (+10.00, +10.00%)\<newline>'')
   \<and> symbol_lines (report_header @ ''AAPL: $110.00 (+10.00, +10.00%)\<newline>'')
       = [''AAPL: $110.00 (+10.00, +10.00%)'']"
proof -
  let ?frames = "[[bar_at 100, bar_at 110], [bar_at 100, bar_at 110]]"
  let ?pd = "[(''AAPL'', entry_of [bar_at 100, bar_at 110])]"
  have fetched: "retrievals rising_history ''1mo'' (split ''AAPL,AAPL'' CHR '','')
                   = map Inr ?frames"
    by (simp add: split_twice retrievals_def rising_history_def)
  have "fold (\<lambda>(k, e). AList.update k e) (stored (split ''AAPL,AAPL'' CHR '','') ?frames) []
          = ?pd"
    by (simp add: split_twice stored_def strip_samples)
  with analyze_portfolio_returns [OF fetched]
  have run: "analyze_portfolio rising_history ''AAPL,AAPL'' ''1mo'' = Inr (format_report ?pd)"
    by simp
  have report: "format_report ?pd
      = report_header @ ''AAPL: $110.00 (+10.00, +10.00%)\<newline>''"
    by (simp add: format_report_concat sample_line)
  have "lines_of (format_report ?pd)
      = [''Portfolio Analysis:'', replicate 50 CHR ''='']
        @ map (\<lambda>(k, e). butlast (portfolio_line k e)) ?pd"
    by (rule lines_of_report) simp
  then have "symbol_lines (format_report ?pd) = [''AAPL: $110.00 (+10.00, +10.00%)'']"
    by (simp add: symbol_lines_def sample_line)
  with run report fetched show ?thesis
    by (simp add: split_twice)
qed

text \<open>
  C10. When every retrieval returns, the summary holds one line per distinct trimmed symbol
  that had a non-empty series (the keys of \<open>stored\<close>), however often the symbol is
  listed: the keys of the dict are pairwise distinct, their number is the number of such
  symbols, the entry under a key is the one assigned last, and, when the input holds no
  line feed, the per-symbol text lines are as many.
\<close>

theorem one_line_per_symbol_with_data:
  assumes "retrievals history period (split symbols CHR '','') = map Inr frames"
  shows "\<exists>portfolio_data.
      analyze_portfolio history symbols period
        = Inr (report_header @ concat (map (\<lambda>(k, e). portfolio_line k e) portfolio_data))
      \<and> distinct (map fst portfolio_data)
      \<and> fst ` set portfolio_data = fst ` set (stored (split symbols CHR '','') frames)
      \<and> length portfolio_data = card (fst ` set (stored (split symbols CHR '','') frames))
      \<and> map_of portfolio_data = map_of (rev (stored (split symbols CHR '','') frames))
      \<and> (CHR ''\<newline>'' \<notin> set symbols \<longrightarrow>
            length (symbol_lines
                      (report_header @ concat (map (\<lambda>(k, e). portfolio_line k e) portfolio_data)))
              = card (fst ` set (stored (split symbols CHR '','') frames)))"
proof -
  let ?kept = "stored (split symbols CHR '','') frames"
  let ?pd = "fold (\<lambda>(k, e). AList.update k e) ?kept []"
  have run: "analyze_portfolio history symbols period
      = Inr (report_header @ concat (map (\<lambda>(k, e). portfolio_line k e) ?pd))"
    using analyze_portfolio_returns [OF assms] by (simp only: format_report_concat)
  have different: "distinct (map fst ?pd)"
    by (rule fold_update_distinct) simp
  have keys: "fst ` set ?pd = fst ` set ?kept"
    by (simp add: fold_update_keys)
  have "length ?pd = length (map fst ?pd)" by simp
  also have "\<dots> = card (set (map fst ?pd))"
    using different by (rule distinct_card [symmetric])
  also have "\<dots> = card (fst ` set ?kept)"
    using keys by simp
  finally have count: "length ?pd = card (fst ` set ?kept)" .
  have latest: "map_of ?pd = map_of (rev ?kept)"
    by (simp add: fold_update_map_of)
  have "length (symbol_lines
                  (report_header @ concat (map (\<lambda>(k, e). portfolio_line k e) ?pd)))
          = card (fst ` set ?kept)"
    if plain: "CHR ''\<newline>'' \<notin> set symbols"
  proof -
    have "\<forall>k \<in> fst ` set ?pd. CHR ''\<newline>'' \<notin> set k"
      using stored_keys_plain [OF plain, of "CHR '',''" frames] keys by simp
    then have "map (\<lambda>l. l @ ''\<newline>'') (symbol_lines (format_report ?pd))
        = map (\<lambda>(k, e). portfolio_line k e) ?pd"
      by (rule symbol_lines_report)
    then have "length (symbol_lines (format_report ?pd)) = length ?pd"
      by (metis length_map)
    with count show ?thesis by (simp only: format_report_concat)
  qed
  with run different keys count latest show ?thesis by blast
qed

theorem one_line_per_symbol_with_data_witness:
  "analyze_portfolio moving_history ''AAPL, AAPL'' ''1mo''
     = Inr (report_header @ ''AAPL: $111.00 (+11.00, +11.00%)\<newline>'')
   \<and> length (symbol_lines (report_header @ ''AAPL: $111.00 (+11.00, +11.00%)\<newline>'')) = 1
   \<and> length (split ''AAPL, AAPL'' CHR '','') = 2"
proof -
  let ?frames = "[[bar_at 100, bar_at 110], [bar_at 100, bar_at 111]]"
  let ?early = "entry_of [bar_at 100, bar_at 110]"
  let ?late = "entry_of [bar_at 100, bar_at 111]"
  have fetched: "retrievals moving_history ''1mo'' (split ''AAPL, AAPL'' CHR '','')
                   = map Inr ?frames"
    by (simp add: split_spaced retrievals_def moving_history_def)
  have kept: "stored (split ''AAPL, AAPL'' CHR '','') ?frames
                = [(''AAPL'', ?early), (''AAPL'', ?late)]"
    by (simp add: split_spaced stored_def strip_samples)
  have plain: "CHR ''\<newline>'' \<notin> set ''AAPL, AAPL''" by simp
  from one_line_per_symbol_with_data [OF fetched] plain
  obtain pd where run: "analyze_portfolio moving_history ''AAPL, AAPL'' ''1mo''
        = Inr (report_header @ concat (map (\<lambda>(k, e). portfolio_line k e) pd))"
    and keys: "fst ` set pd = {''AAPL''}"
    and count: "length pd = card {''AAPL''}"
    and latest: "map_of pd = map_of [(''AAPL'', ?late), (''AAPL'', ?early)]"
    and lines: "length (symbol_lines
                  (report_header @ concat (map (\<lambda>(k, e). portfolio_line k e) pd))) = 1"
    unfolding kept by auto
  from count obtain k e where single: "pd = [(k, e)]"
    by (cases pd) auto
  from keys single have "k = ''AAPL''" by simp
  moreover from latest single this have "e = ?late"
    by (simp add: fun_eq_iff split: if_splits)
  ultimately have "pd = [(''AAPL'', ?late)]" using single by simp
  with run lines show ?thesis
    by (simp add: later_line split_spaced)
qed

subsection \<open>Symbols without data\<close>

lemma stored_without:
  assumes "\<forall>(s, data) \<in> set (zip pieces frames). strip s = symbol \<longrightarrow> data = []"
  shows "stored (map fst (filter (\<lambda>(s, data). strip s \<noteq> symbol) (zip pieces frames)))
           (map snd (filter (\<lambda>(s, data). strip s \<noteq> symbol) (zip pieces frames)))
         = stored pieces frames"
proof -
  let ?others = "filter (\<lambda>(s, data). strip s \<noteq> symbol) (zip pieces frames)"
  have "filter (\<lambda>(s, data). data \<noteq> []) ?others
          = filter (\<lambda>(s, data). data \<noteq> []) (zip pieces frames)"
    unfolding filter_filter using assms by (intro filter_cong) auto
  then show ?thesis
    by (simp add: stored_def zip_map_fst_snd)
qed

text \<open>
  C5. When every retrieval returns and every series fetched for a symbol is empty, the
  summarizer still returns a summary (not an error text), the dict it prints has no entry
  and hence no line for that symbol, every field with a non-empty series has its entry,
  and the entries are those the other fields alone produce.
\<close>

theorem empty_series_is_skipped:
  assumes "retrievals history period (split symbols CHR '','') = map Inr frames"
    and "\<forall>(s, data) \<in> set (zip (split symbols CHR '','') frames).
           strip s = symbol \<longrightarrow> data = []"
  shows "\<exists>portfolio_data.
      analyze_portfolio history symbols period
        = Inr (report_header @ concat (map (\<lambda>(k, e). portfolio_line k e) portfolio_data))
      \<and> symbol \<notin> fst ` set portfolio_data
      \<and> (\<forall>(s, data) \<in> set (zip (split symbols CHR '','') frames).
            data \<noteq> [] \<longrightarrow> strip s \<in> fst ` set portfolio_data)
      \<and> map_of portfolio_data
          = map_of (rev (stored
              (map fst (filter (\<lambda>(s, data). strip s \<noteq> symbol)
                          (zip (split symbols CHR '','') frames)))
              (map snd (filter (\<lambda>(s, data). strip s \<noteq> symbol)
                          (zip (split symbols CHR '','') frames)))))"
proof -
  let ?pieces = "split symbols CHR '',''"
  let ?kept = "stored ?pieces frames"
  let ?pd = "fold (\<lambda>(k, e). AList.update k e) ?kept []"
  have run: "analyze_portfolio history symbols period
      = Inr (report_header @ concat (map (\<lambda>(k, e). portfolio_line k e) ?pd))"
    using analyze_portfolio_returns [OF assms(1)] by (simp only: format_report_concat)
  have keys: "fst ` set ?pd = fst ` set ?kept"
    by (simp add: fold_update_keys)
  have absent: "symbol \<notin> fst ` set ?pd"
  proof
    assume "symbol \<in> fst ` set ?pd"
    with keys obtain s data where "(s, data) \<in> set (zip ?pieces frames)"
        and "data \<noteq> []" and "strip s = symbol"
      by (auto simp: stored_def)
    with assms(2) show False by blast
  qed
  have present: "\<forall>(s, data) \<in> set (zip ?pieces frames).
      data \<noteq> [] \<longrightarrow> strip s \<in> fst ` set ?pd"
    unfolding keys by (force simp: stored_def)
  have "map_of ?pd = map_of (rev ?kept)"
    by (simp add: fold_update_map_of)
  then have others: "map_of ?pd
      = map_of (rev (stored
          (map fst (filter (\<lambda>(s, data). strip s \<noteq> symbol) (zip ?pieces frames)))
          (map snd (filter (\<lambda>(s, data). strip s \<noteq> symbol) (zip ?pieces frames)))))"
    by (simp only: stored_without [OF assms(2)])
  from run absent present others show ?thesis by blast
qed

theorem empty_series_is_skipped_witness:
  "\<exists>portfolio_data.
      analyze_portfolio patchy_history ''AAPL,ZZZZ,MSFT'' ''1mo''
        = Inr (report_header @ concat (map (\<lambda>(k, e). portfolio_line k e) portfolio_data))
      \<and> ''ZZZZ'' \<notin> fst ` set portfolio_data
      \<and> ''AAPL'' \<in> fst ` set portfolio_data
      \<and> ''MSFT'' \<in> fst ` set portfolio_data
      \<and> map_of portfolio_data ''MSFT'' = Some (entry_of [bar_at 100, bar_at 110])"
proof -
  let ?frames = "[[bar_at 100, bar_at 110], [], [bar_at 100, bar_at 110]]"
  have fetched: "retrievals patchy_history ''1mo'' (split ''AAPL,ZZZZ,MSFT'' CHR '','')
                   = map Inr ?frames"
    by (simp add: split_patchy retrievals_def patchy_history_def strip_samples)
  have empty: "\<forall>(s, data) \<in> set (zip (split ''AAPL,ZZZZ,MSFT'' CHR '','') ?frames).
                 strip s = ''ZZZZ'' \<longrightarrow> data = []"
    by (simp add: split_patchy strip_samples)
  from empty_series_is_skipped [OF fetched empty]
  obtain pd where run: "analyze_portfolio patchy_history ''AAPL,ZZZZ,MSFT'' ''1mo''
        = Inr (report_header @ concat (map (\<lambda>(k, e). portfolio_line k e) pd))"
    and absent: "''ZZZZ'' \<notin> fst ` set pd"
    and present: "''AAPL'' \<in> fst ` set pd" "''MSFT'' \<in> fst ` set pd"
    and others: "map_of pd = map_of [(''MSFT'', entry_of [bar_at 100, bar_at 110]),
                                     (''AAPL'', entry_of [bar_at 100, bar_at 110])]"
    by (auto simp: split_patchy strip_samples stored_def)
  from others have "map_of pd ''MSFT'' = Some (entry_of [bar_at 100, bar_at 110])"
    by simp
  with run absent present show ?thesis by blast
qed

subsection \<open>A failing retrieval\<close>

lemma loop_error_text:
  "portfolio_loop history period 0 (split symbols CHR '','') [] = Inl (PyException msg) \<Longrightarrow>
     analyze_portfolio history symbols period = Inr (''Error analyzing portfolio: '' @ msg)"
  by (simp add: analyze_portfolio_def except_Exception_caught)

text \<open>
  C6. Whenever the loop raises an error, the summarizer returns the single text
  \<^verbatim>\<open>Error analyzing portfolio: {message}\<close> and nothing else. In particular, when the
  retrieval for field \<open>i\<close> fails after the retrievals for the fields before it have
  returned, the loop raises that error, and nothing computed from the earlier series is
  part of the result. (By \<open>portfolio_loop_error_source\<close> a failing retrieval is the only way
  the loop raises; formatting raises nothing.)
\<close>

theorem portfolio_error_discards_results:
  "(portfolio_loop history period 0 (split symbols CHR '','') [] = Inl (PyException msg)
      \<longrightarrow> analyze_portfolio history symbols period
            = Inr (''Error analyzing portfolio: '' @ msg))
   \<and> (i < length (split symbols CHR '','')
        \<and> retrievals history period (take i (split symbols CHR '','')) = map Inr frames
        \<and> history i (strip (split symbols CHR '','' ! i)) period = Inl (PyException msg)
      \<longrightarrow> portfolio_loop history period 0 (split symbols CHR '','') [] = Inl (PyException msg)
        \<and> analyze_portfolio history symbols period
            = Inr (''Error analyzing portfolio: '' @ msg))"
proof -
  let ?pieces = "split symbols CHR '',''"
  have raised: "portfolio_loop history period 0 ?pieces [] = Inl (PyException msg)"
    if "i < length ?pieces"
      and "retrievals history period (take i ?pieces) = map Inr frames"
      and "history i (strip (?pieces ! i)) period = Inl (PyException msg)"
  proof -
    have parts: "?pieces = take i ?pieces @ ?pieces ! i # drop (Suc i) ?pieces"
      using that(1) by (rule id_take_nth_drop)
    have "length (take i ?pieces) = i"
      using that(1) by simp
    with that(3) have fails:
      "history (0 + length (take i ?pieces)) (strip (?pieces ! i)) period
         = Inl (PyException msg)"
      by simp
    have "portfolio_loop history period 0
            (take i ?pieces @ ?pieces ! i # drop (Suc i) ?pieces) [] = Inl (PyException msg)"
      using that(2) fails unfolding retrievals_def by (rule portfolio_loop_raises)
    with parts show ?thesis by simp
  qed
  with loop_error_text [of history period symbols msg] show ?thesis by blast
qed

theorem portfolio_error_discards_results_witness:
  "analyze_portfolio failing_history ''AAPL,MSFT,GOOG'' ''1mo''
     = Inr ''Error analyzing portfolio: No data found, symbol may be delisted''"
proof -
  have first: "(1::nat) < length (split ''AAPL,MSFT,GOOG'' CHR '','')"
    by (simp add: split_three)
  have fetched: "retrievals failing_history ''1mo'' (take 1 (split ''AAPL,MSFT,GOOG'' CHR '',''))
                   = map Inr [[bar_at 100, bar_at 110]]"
    by (simp add: split_three retrievals_def failing_history_def)
  have fails: "failing_history 1 (strip (split ''AAPL,MSFT,GOOG'' CHR '','' ! 1)) ''1mo''
                 = Inl (PyException ''No data found, symbol may be delisted'')"
    by (simp add: failing_history_def)
  from portfolio_error_discards_results
    [of failing_history "''1mo''" "''AAPL,MSFT,GOOG''"
        "''No data found, symbol may be delisted''" 1 "[[bar_at 100, bar_at 110]]"]
    first fetched fails
  show ?thesis by simp
qed

section \<open>What the handlers return\<close>

lemma except_Exception_total:
  "(\<forall>msg. body \<noteq> Inl (PyBaseException msg)) \<Longrightarrow> \<exists>v. except_Exception body h = Inr v"
proof (cases body)
  case (Inl e)
  assume "\<forall>msg. body \<noteq> Inl (PyBaseException msg)"
  with Inl obtain msg where "e = PyException msg" by (cases e) auto
  with Inl show ?thesis by (simp add: except_Exception_caught)
next
  case (Inr v)
  then show ?thesis by (simp add: except_Exception_Inr)
qed

lemma get_stock_data_total:
  assumes "\<forall>msg. history 0 symbol period \<noteq> Inl (PyBaseException msg)"
  shows "\<exists>report. get_stock_data history to_string symbol period = Inr report"
  unfolding get_stock_data_def
proof (rule except_Exception_total)
  show "\<forall>msg. (case history 0 symbol period of Inl e \<Rightarrow> Inl e
                | Inr data \<Rightarrow> Inr (''Stock data for '' @ symbol @ '':\<newline>''
                                      @ to_string (tail data)))
              \<noteq> Inl (PyBaseException msg)"
    using assms by (cases "history 0 symbol period") simp_all
qed

lemma analyze_portfolio_total:
  assumes "\<forall>i s msg. history i s period \<noteq> Inl (PyBaseException msg)"
  shows "\<exists>report. analyze_portfolio history symbols period = Inr report"
  unfolding analyze_portfolio_def
proof (rule except_Exception_total)
  let ?run = "portfolio_loop history period 0 (split symbols CHR '','') []"
  show "\<forall>msg. (case ?run of Inl e \<Rightarrow> Inl e
                | Inr portfolio_data \<Rightarrow> Inr (format_report portfolio_data))
              \<noteq> Inl (PyBaseException msg)"
  proof (cases ?run)
    case (Inl e)
    from portfolio_loop_error_source [OF this] obtain j s where "history j s period = Inl e"
      by blast
    with assms have "\<forall>msg. e \<noteq> PyBaseException msg" by auto
    with Inl show ?thesis by simp
  next
    case (Inr pd)
    then show ?thesis by simp
  qed
qed

lemma ai_financial_advice_total: "\<exists>v. ai_financial_advice post query = Inr v"
  by (simp add: ai_financial_advice_def except_all_def split: sum.splits)

lemma ai_financial_advice_text:
  assumes "\<forall>response body v. post (advice_request query) = Inr response
             \<and> status_code response = 200 \<and> json response = Inr (PDict body)
             \<and> map_of body ''response'' = Some v \<longrightarrow> is_str v"
  shows "\<exists>reply. ai_financial_advice post query = Inr (PStr reply)"
proof -
  let ?echo = "PStr (''AI Response: '' @ query)"
  consider (raised) e where "post (advice_request query) = Inl e"
    | (status) response where "post (advice_request query) = Inr response"
        "status_code response \<noteq> 200"
    | (undecodable) response e where "post (advice_request query) = Inr response"
        "json response = Inl e"
    | (fieldless) response body where "post (advice_request query) = Inr response"
        "json response = Inr body" "\<forall>d. body = PDict d \<longrightarrow> map_of d ''response'' = None"
    | (field) response d v where "post (advice_request query) = Inr response"
        "status_code response = 200" "json response = Inr (PDict d)"
        "map_of d ''response'' = Some v"
  proof (cases "post (advice_request query)")
    case (Inl e)
    then show ?thesis by (rule raised)
  next
    case (Inr response)
    show ?thesis
    proof (cases "status_code response = 200")
      case False
      with Inr show ?thesis by (rule status)
    next
      case True
      show ?thesis
      proof (cases "json response")
        case (Inl e)
        with Inr show ?thesis by (rule undecodable)
      next
        case body: (Inr body)
        show ?thesis
        proof (cases "\<exists>d v. body = PDict d \<and> map_of d ''response'' = Some v")
          case True
          then obtain d v where "body = PDict d" "map_of d ''response'' = Some v" by blast
          with Inr \<open>status_code response = 200\<close> body show ?thesis
            by (intro field [of response d v]) simp_all
        next
          case False
          then have "\<forall>d. body = PDict d \<longrightarrow> map_of d ''response'' = None" by auto
          with Inr body show ?thesis by (rule fieldless)
        qed
      qed
    qed
  qed
  then show ?thesis
  proof cases
    case raised
    then show ?thesis using advice_post_raises by blast
  next
    case status
    then show ?thesis using advice_other_status by blast
  next
    case undecodable
    then show ?thesis using advice_json_raises by blast
  next
    case fieldless
    then show ?thesis using advice_no_field by blast
  next
    case field
    with assms have "is_str v" by blast
    then obtain reply where "v = PStr reply"
      by (cases v) (simp_all add: is_str_def)
    moreover from field have "ai_financial_advice post query = Inr v"
      by (simp add: ai_financial_advice_def except_all_def)
    ultimately show ?thesis by blast
  qed
qed

text \<open>
  C8, as the code has it. The quote fetcher and the portfolio summarizer return a text
  whenever no retrieval raises an object outside \<^verbatim>\<open>Exception\<close>, which
  \<^verbatim>\<open>except Exception\<close> lets through. The advice relay never raises; it returns a text
  whenever the value a status-200 dict body holds under \<^verbatim>\<open>'response'\<close>, if there is
  one, is a text, and otherwise it returns that value as it is.
\<close>

theorem handlers_return:
  "((\<forall>msg. history 0 symbol period \<noteq> Inl (PyBaseException msg))
      \<longrightarrow> (\<exists>report. get_stock_data history to_string symbol period = Inr report))
   \<and> ((\<forall>i s msg. history i s period \<noteq> Inl (PyBaseException msg))
      \<longrightarrow> (\<exists>report. analyze_portfolio history symbols period = Inr report))
   \<and> (\<exists>v. ai_financial_advice post query = Inr v)
   \<and> ((\<forall>response body v. post (advice_request query) = Inr response
           \<and> status_code response = 200 \<and> json response = Inr (PDict body)
           \<and> map_of body ''response'' = Some v \<longrightarrow> is_str v)
      \<longrightarrow> (\<exists>reply. ai_financial_advice post query = Inr (PStr reply)))"
  using get_stock_data_total [of history symbol period to_string]
    analyze_portfolio_total [of history period symbols]
    ai_financial_advice_total [of post query]
    ai_financial_advice_text [of post query]
  by blast

theorem handlers_return_witness:
  "(\<exists>report. get_stock_data offline_history plain_table ''AAPL'' ''1mo'' = Inr report)
   \<and> (\<exists>report. analyze_portfolio offline_history ''AAPL,MSFT,GOOG'' ''1mo'' = Inr report)
   \<and> (\<exists>v. ai_financial_advice diversify_endpoint ''Should I buy gold?'' = Inr v)
   \<and> (\<exists>reply. ai_financial_advice diversify_endpoint ''Should I buy gold?''
                 = Inr (PStr reply))"
proof -
  have quote: "\<forall>msg. offline_history 0 ''AAPL'' ''1mo'' \<noteq> Inl (PyBaseException msg)"
    by (simp add: offline_history_def)
  have summary: "\<forall>i s msg. offline_history i s ''1mo'' \<noteq> Inl (PyBaseException msg)"
    by (simp add: offline_history_def)
  have answer: "\<forall>response body v.
      diversify_endpoint (advice_request ''Should I buy gold?'') = Inr response
      \<and> status_code response = 200 \<and> json response = Inr (PDict body)
      \<and> map_of body ''response'' = Some v \<longrightarrow> is_str v"
    by (auto simp: diversify_endpoint_def is_str_def)
  from handlers_return [where history = offline_history and symbol = "''AAPL''"
      and period = "''1mo''" and to_string = plain_table and symbols = "''AAPL,MSFT,GOOG''"
      and post = diversify_endpoint and query = "''Should I buy gold?''"]
    quote summary answer
  show ?thesis by blast
qed

text \<open>
  C8, as the specification words it, fails for the advice relay: when the endpoint answers
  200 with \<^verbatim>\<open>{"response": 42}\<close>, the relay returns the number 42, which is not a text.
\<close>

theorem advice_result_not_text:
  "ai_financial_advice numeric_endpoint ''Should I buy gold?'' = Inr (PInt 42)
   \<and> \<not> is_str (PInt 42)"
  by (simp add: ai_financial_advice_def except_all_def numeric_endpoint_def is_str_def)

section \<open>The quote fetcher, when the retrieval returns\<close>

lemma format_100: "format_2f False (float_of_nat 100) = ''100.00''"
  by (simp add: float_100 format_eval)

text \<open>
  When the retrieval returns a frame, the quote fetcher returns the header line
  \<^verbatim>\<open>Stock data for {symbol}:\<close> followed by the rendering of the last five rows of the
  frame (of all its rows when there are fewer).
\<close>

theorem quote_fetch_renders_tail:
  assumes "history 0 symbol period = Inr data"
  shows "get_stock_data history to_string symbol period
           = Inr (''Stock data for '' @ symbol @ '':\<newline>'' @ to_string (drop (length data - 5) data))"
  using assms by (simp add: get_stock_data_def except_Exception_Inr tail_def)

theorem quote_fetch_renders_tail_witness:
  "get_stock_data rising_history plain_table ''AAPL'' ''1mo''
     = Inr ''Stock data for AAPL:\<newline>100.00\<newline>110.00\<newline>''"
  using quote_fetch_renders_tail
    [of rising_history "''AAPL''" "''1mo''" "[bar_at 100, bar_at 110]" plain_table]
  by (simp add: rising_history_def plain_table_def bar_at_def format_100 format_110)

end
